theory Spec2Isabelle
  imports Main "HOL-Library.Multiset"
begin

section \<open>Data model\<close>

text \<open>
  The interfaces of \<^verbatim>\<open>SummaryPanel.tsx\<close> and \<^verbatim>\<open>ConversationCard.tsx\<close>. The fields
  \<^verbatim>\<open>from\<close> and \<^verbatim>\<open>text\<close> of a message are keywords here and carry the prefix
  \<^verbatim>\<open>msg_\<close>. Time stamps are epoch seconds and counts are integers; both are
  \<^typ>\<open>int\<close>.
\<close>

record Message =
  msg_from :: string
  msg_text :: string
  timestamp :: int

record Summary =
  who :: string
  intent :: string
  requirements :: "string list"
  urgency :: string
  sentiment :: string
  action_items :: "string list"
  one_liner :: string

record Conversation =
  sender :: string
  conversation_id :: string
  started_at :: int
  last_activity :: int
  messages :: "Message list"
  read :: bool
  summary :: "Summary option"

text \<open>
  A call of \<^verbatim>\<open>middleware/api\<close> either resolves with the body of the response or
  rejects; the axios instance is created with \<^verbatim>\<open>timeout: 30000\<close>, and a timeout
  rejects like any other failure.
\<close>

datatype net_error = Unreachable | Timeout | HttpStatus nat

text \<open>
  The body of \<^verbatim>\<open>GET /pet/conversations\<close>. Either field may be missing, which is what
  the \<^verbatim>\<open>||\<close> defaults of \<^verbatim>\<open>loadConversations\<close> are for.
\<close>

record ConversationsBody =
  conversations_field :: "Conversation list option"
  unread_count_field :: "int option"

section \<open>NotificationBadge\<close>

text \<open>
  What the badge shows: the component returns \<^verbatim>\<open>null\<close> (\<open>None\<close>) or a span whose child
  is the string literal \<^verbatim>\<open>'99+'\<close> or the number itself.
\<close>

datatype badge_child = Literal string | Number int

definition NotificationBadge :: "int \<Rightarrow> badge_child option" where
  "NotificationBadge cnt =
     (if cnt \<le> 0 then None
      else Some (if cnt > 99 then Literal ''99+'' else Number cnt))"

section \<open>SummaryPanel: the full reconcile\<close>

text \<open>
  \<^verbatim>\<open>Array.prototype.sort\<close> with a comparator: a stable sort that puts \<open>a\<close> before \<open>b\<close>
  when the comparator is negative and keeps the order of the input when it is zero.
  Insertion from the right end of the array is one such sort.
\<close>

fun insert_by :: "('a \<Rightarrow> 'a \<Rightarrow> int) \<Rightarrow> 'a \<Rightarrow> 'a list \<Rightarrow> 'a list" where
  "insert_by cmp a [] = [a]"
| "insert_by cmp a (b # bs) =
     (if cmp a b \<le> 0 then a # b # bs else b # insert_by cmp a bs)"

definition array_sort :: "('a \<Rightarrow> 'a \<Rightarrow> int) \<Rightarrow> 'a list \<Rightarrow> 'a list" where
  "array_sort cmp xs = foldr (insert_by cmp) xs []"

text \<open>The comparator of \<^verbatim>\<open>loadConversations\<close>: \<^verbatim>\<open>(a, b) => b.last_activity - a.last_activity\<close>.\<close>

definition by_last_activity :: "Conversation \<Rightarrow> Conversation \<Rightarrow> int" where
  "by_last_activity a b = last_activity b - last_activity a"

record panel_state =
  conversations :: "Conversation list"
  unreadCount :: int
  loading :: bool
  summarizingAll :: bool

text \<open>The four \<^verbatim>\<open>useState\<close> initial values of \<^verbatim>\<open>SummaryPanel\<close>.\<close>

definition panel_init :: panel_state where
  "panel_init = \<lparr>conversations = [], unreadCount = 0, loading = True, summarizingAll = False\<rparr>"

text \<open>\<^verbatim>\<open>x || []\<close> and \<^verbatim>\<open>x || 0\<close>: a missing field and the falsy number \<open>0\<close> both give the default.\<close>

definition or_empty :: "'a list option \<Rightarrow> 'a list" where
  "or_empty v = (case v of None \<Rightarrow> [] | Some xs \<Rightarrow> xs)"

definition or_zero :: "int option \<Rightarrow> int" where
  "or_zero v = (case v of None \<Rightarrow> 0 | Some n \<Rightarrow> (if n = 0 then 0 else n))"

text \<open>
  \<^verbatim>\<open>loadConversations\<close> from the point where \<^verbatim>\<open>await fetchAllConversations()\<close> settles:
  a rejection goes to the \<^verbatim>\<open>catch\<close>, which only logs; \<^verbatim>\<open>setLoading(false)\<close> runs on
  both paths.
\<close>

definition loadConversations :: "net_error + ConversationsBody \<Rightarrow> panel_state \<Rightarrow> panel_state" where
  "loadConversations r s =
     (case r of
        Inr data \<Rightarrow>
          (let sorted = array_sort by_last_activity (or_empty (conversations_field data))
           in s\<lparr>conversations := sorted,
                unreadCount := or_zero (unread_count_field data),
                loading := False\<rparr>)
      | Inl err \<Rightarrow> s\<lparr>loading := False\<rparr>)"

text \<open>The polls of a mounted panel, one after the other, each with what the store answered.\<close>

definition reconciles :: "(net_error + ConversationsBody) list \<Rightarrow> panel_state \<Rightarrow> panel_state" where
  "reconciles rs s = fold loadConversations rs s"

text \<open>The mirror is in descending order of \<^verbatim>\<open>last_activity\<close>.\<close>

definition sorted_desc :: "Conversation list \<Rightarrow> bool" where
  "sorted_desc cs = sorted_wrt (\<lambda>a b. last_activity b \<le> last_activity a) cs"

text \<open>
  The count the store reported last, read off the answers alone: rejected polls and the
  conversation lists play no part, and before the first answer it is the initial \<open>0\<close>.
\<close>

fun last_reported :: "int \<Rightarrow> (net_error + ConversationsBody) list \<Rightarrow> int" where
  "last_reported n [] = n"
| "last_reported n (Inl err # rs) = last_reported n rs"
| "last_reported n (Inr data # rs) = last_reported (or_zero (unread_count_field data)) rs"

text \<open>Every count the store reported is a count: not negative.\<close>

fun counts_nonneg :: "(net_error + ConversationsBody) list \<Rightarrow> bool" where
  "counts_nonneg [] = True"
| "counts_nonneg (Inl err # rs) = counts_nonneg rs"
| "counts_nonneg (Inr data # rs) = (0 \<le> or_zero (unread_count_field data) \<and> counts_nonneg rs)"

section \<open>BunnyPet: the badge poll and the mood\<close>

datatype mood = Idle | Excited | Sleeping

text \<open>
  The two callbacks handed to \<^verbatim>\<open>setTimeout\<close>: \<^verbatim>\<open>() => setBouncing(false)\<close> and
  \<^verbatim>\<open>() => setBlinking(false)\<close>. A pending timeout is its delay in milliseconds and its
  callback.
\<close>

datatype timer_cb = BounceOff | BlinkOff

record pet_state =
  pet_unreadCount :: int
  mood :: mood
  blinking :: bool
  bouncing :: bool
  timeouts :: "(nat \<times> timer_cb) list"

definition pet_init :: pet_state where
  "pet_init = \<lparr>pet_unreadCount = 0, mood = Idle, blinking = False, bouncing = False, timeouts = []\<rparr>"

definition setTimeout :: "timer_cb \<Rightarrow> nat \<Rightarrow> pet_state \<Rightarrow> pet_state" where
  "setTimeout cb ms s = s\<lparr>timeouts := timeouts s @ [(ms, cb)]\<rparr>"

text \<open>
  \<^verbatim>\<open>pollUnread\<close> from the point where \<^verbatim>\<open>await fetchUnreadCount()\<close> settles. Nothing in
  it reads the previous counter.
\<close>

definition pollUnread :: "net_error + int \<Rightarrow> pet_state \<Rightarrow> pet_state" where
  "pollUnread r s =
     (case r of
        Inr cnt \<Rightarrow>
          (let s1 = s\<lparr>pet_unreadCount := cnt\<rparr>
           in if cnt > 0
              then setTimeout BounceOff 2000 (s1\<lparr>mood := Excited, bouncing := True\<rparr>)
              else s1\<lparr>mood := Idle\<rparr>)
      | Inl err \<Rightarrow> s\<lparr>mood := Idle\<rparr>)"

definition run_cb :: "timer_cb \<Rightarrow> pet_state \<Rightarrow> pet_state" where
  "run_cb cb s = (case cb of BounceOff \<Rightarrow> s\<lparr>bouncing := False\<rparr> | BlinkOff \<Rightarrow> s\<lparr>blinking := False\<rparr>)"

text \<open>The \<open>i\<close>-th pending timeout expires: it leaves the list and its callback runs.\<close>

definition expire :: "nat \<Rightarrow> pet_state \<Rightarrow> pet_state" where
  "expire i s =
     (if i < length (timeouts s)
      then run_cb (snd (timeouts s ! i))
             (s\<lparr>timeouts := take i (timeouts s) @ drop (Suc i) (timeouts s)\<rparr>)
      else s)"

text \<open>The body of the blink interval.\<close>

definition blinkTick :: "pet_state \<Rightarrow> pet_state" where
  "blinkTick s = setTimeout BlinkOff 200 (s\<lparr>blinking := True\<rparr>)"

text \<open>The badge polls of a mounted companion, one after the other.\<close>

definition badge_polls :: "(net_error + int) list \<Rightarrow> pet_state \<Rightarrow> pet_state" where
  "badge_polls rs s = fold pollUnread rs s"

fun last_count :: "int \<Rightarrow> (net_error + int) list \<Rightarrow> int" where
  "last_count n [] = n"
| "last_count n (Inl err # rs) = last_count n rs"
| "last_count n (Inr cnt # rs) = last_count cnt rs"

fun polls_nonneg :: "(net_error + int) list \<Rightarrow> bool" where
  "polls_nonneg [] = True"
| "polls_nonneg (Inl err # rs) = polls_nonneg rs"
| "polls_nonneg (Inr cnt # rs) = (0 \<le> cnt \<and> polls_nonneg rs)"

section \<open>The capability bridge in the UI process\<close>

text \<open>
  \<^verbatim>\<open>preload.ts\<close> exposes an object of three methods, each of which sends one message on
  its own channel. The messages sent so far are the \<open>outbox\<close>. In \<^verbatim>\<open>vite-env.d.ts\<close>
  the property \<^verbatim>\<open>window.electronAPI\<close> is optional.
\<close>

type_synonym outbox = "string list"

definition ipcRenderer_send :: "string \<Rightarrow> outbox \<Rightarrow> outbox" where
  "ipcRenderer_send channel q = q @ [channel]"

record ElectronAPI =
  openSummary :: "outbox \<Rightarrow> outbox"
  closeSummary :: "outbox \<Rightarrow> outbox"
  toggleSummary :: "outbox \<Rightarrow> outbox"

definition preload_api :: ElectronAPI where
  "preload_api =
     \<lparr>openSummary = ipcRenderer_send ''open-summary'',
      closeSummary = ipcRenderer_send ''close-summary'',
      toggleSummary = ipcRenderer_send ''toggle-summary''\<rparr>"

record window_env =
  electronAPI :: "ElectronAPI option"
  sent :: outbox

datatype js_error = TypeError

text \<open>
  The expression \<^verbatim>\<open>window.electronAPI.m()\<close> on its own: reading a property of
  \<^verbatim>\<open>undefined\<close> throws a TypeError.
\<close>

definition call_bridge :: "(ElectronAPI \<Rightarrow> outbox \<Rightarrow> outbox) \<Rightarrow> window_env \<Rightarrow> js_error + window_env" where
  "call_bridge m w =
     (case electronAPI w of
        None \<Rightarrow> Inl TypeError
      | Some api \<Rightarrow> Inr (w\<lparr>sent := m api (sent w)\<rparr>))"

text \<open>\<^verbatim>\<open>handleClose\<close> of \<^verbatim>\<open>SummaryPanel\<close>.\<close>

definition handleClose :: "window_env \<Rightarrow> js_error + window_env" where
  "handleClose w = (if electronAPI w \<noteq> None then call_bridge closeSummary w else Inr w)"

text \<open>\<^verbatim>\<open>handleClick\<close> of \<^verbatim>\<open>BunnyPet\<close>: the guarded toggle, then the 600 ms bounce.\<close>

definition pet_handleClick :: "window_env \<Rightarrow> pet_state \<Rightarrow> js_error + window_env \<times> pet_state" where
  "pet_handleClick w s =
     (case (if electronAPI w \<noteq> None then call_bridge toggleSummary w else Inr w) of
        Inl e \<Rightarrow> Inl e
      | Inr w' \<Rightarrow> Inr (w', setTimeout BounceOff 600 (s\<lparr>bouncing := True\<rparr>)))"

section \<open>ConversationCard inside the panel: handlers and their requests\<close>

text \<open>
  The functions of \<^verbatim>\<open>middleware/api\<close> that the panel and the card call, and what a
  response carries. A request is issued when its function is called; an \<^verbatim>\<open>await\<close>
  suspends the handler until the request settles. Each request in flight is kept with
  the place that waits for it.
\<close>

datatype api_call = FetchAll | MarkRead string | MarkAllRead | Summarize string | SummarizeAll

datatype api_body = ConversationsB ConversationsBody | SummaryB "Summary option" | Ack

datatype net_event = Issued api_call | Settled api_call

datatype cont =
    K_summarize            \<comment> \<open>\<^verbatim>\<open>handleSummarize\<close> at \<^verbatim>\<open>await summarizeConversation(id)\<close>\<close>
  | K_summarize_markRead   \<comment> \<open>\<^verbatim>\<open>handleSummarize\<close> at \<^verbatim>\<open>await markConversationRead(id)\<close>\<close>
  | K_dropped              \<comment> \<open>\<^verbatim>\<open>handleClick\<close>: the promise of \<^verbatim>\<open>markConversationRead(id)\<close> is not used\<close>
  | K_markAllRead          \<comment> \<open>\<^verbatim>\<open>handleMarkAllRead\<close> at \<^verbatim>\<open>await markAllRead()\<close>\<close>
  | K_summarizeAll         \<comment> \<open>\<^verbatim>\<open>handleSummarizeAll\<close> at \<^verbatim>\<open>await summarizeAll()\<close>\<close>
  | K_load                 \<comment> \<open>\<^verbatim>\<open>loadConversations\<close> at its \<^verbatim>\<open>await\<close>, caller not waiting\<close>
  | K_load_summarizeAll    \<comment> \<open>the same, with \<^verbatim>\<open>handleSummarizeAll\<close> at \<^verbatim>\<open>await loadConversations()\<close>\<close>

text \<open>
  The panel with one of its cards: the state of \<^verbatim>\<open>SummaryPanel\<close>, the card's
  \<^verbatim>\<open>conversation\<close> prop and its three \<^verbatim>\<open>useState\<close> cells, the requests in flight and
  the history of the network.
\<close>

record ui =
  panel :: panel_state
  conversation :: Conversation
  card_summary :: "Summary option"
  card_loading :: bool
  card_expanded :: bool
  inflight :: "(api_call \<times> cont) list"
  trace :: "net_event list"

text \<open>A card as it is mounted: \<^verbatim>\<open>useState(conversation.summary)\<close>, \<^verbatim>\<open>false\<close>, \<^verbatim>\<open>false\<close>.\<close>

definition mount_card :: "panel_state \<Rightarrow> Conversation \<Rightarrow> ui" where
  "mount_card p c =
     \<lparr>panel = p, conversation = c, card_summary = summary c, card_loading = False,
      card_expanded = False, inflight = [], trace = []\<rparr>"

definition issue :: "api_call \<Rightarrow> cont \<Rightarrow> ui \<Rightarrow> ui" where
  "issue call k u = u\<lparr>inflight := inflight u @ [(call, k)], trace := trace u @ [Issued call]\<rparr>"

text \<open>
  Calling \<^verbatim>\<open>loadConversations()\<close> runs it up to its \<^verbatim>\<open>await\<close>: the fetch is issued at
  once. The card's \<^verbatim>\<open>onRead\<close> prop is \<^verbatim>\<open>loadConversations\<close>.
\<close>

definition loadConversations_call :: "cont \<Rightarrow> ui \<Rightarrow> ui" where
  "loadConversations_call k u = issue FetchAll k u"

definition onRead :: "ui \<Rightarrow> ui" where
  "onRead u = loadConversations_call K_load u"

text \<open>\<^verbatim>\<open>handleSummarize\<close> up to its first \<^verbatim>\<open>await\<close>.\<close>

definition handleSummarize :: "ui \<Rightarrow> ui" where
  "handleSummarize u =
     issue (Summarize (conversation_id (conversation u))) K_summarize (u\<lparr>card_loading := True\<rparr>)"

text \<open>
  \<^verbatim>\<open>handleClick\<close> of the card. It tests \<^verbatim>\<open>summary\<close> and \<^verbatim>\<open>conversation.read\<close>; it does
  not test \<^verbatim>\<open>loading\<close>, and it does not wait for \<^verbatim>\<open>markConversationRead\<close>.
\<close>

definition handleClick :: "ui \<Rightarrow> ui" where
  "handleClick u =
     (let u1 = (if card_summary u = None then handleSummarize u
                else u\<lparr>card_expanded := \<not> card_expanded u\<rparr>)
      in if \<not> read (conversation u)
         then onRead (issue (MarkRead (conversation_id (conversation u))) K_dropped u1)
         else u1)"

text \<open>The two buttons of the panel with their \<^verbatim>\<open>disabled\<close> attributes.\<close>

definition handleMarkAllRead :: "ui \<Rightarrow> ui" where
  "handleMarkAllRead u = issue MarkAllRead K_markAllRead u"

definition handleSummarizeAll :: "ui \<Rightarrow> ui" where
  "handleSummarizeAll u =
     issue SummarizeAll K_summarizeAll (u\<lparr>panel := (panel u)\<lparr>summarizingAll := True\<rparr>\<rparr>)"

definition click_markAllRead :: "ui \<Rightarrow> ui" where
  "click_markAllRead u = (if unreadCount (panel u) = 0 then u else handleMarkAllRead u)"

definition click_summarizeAll :: "ui \<Rightarrow> ui" where
  "click_summarizeAll u =
     (if summarizingAll (panel u) \<or> conversations (panel u) = [] then u
      else handleSummarizeAll u)"

text \<open>
  The fetch of a reconcile settles: the panel runs the rest of \<^verbatim>\<open>loadConversations\<close>
  and the card is rendered again from the entry of the new mirror that has its key.
\<close>

definition as_conversations :: "net_error + api_body \<Rightarrow> net_error + ConversationsBody" where
  "as_conversations r =
     (case r of
        Inl e \<Rightarrow> Inl e
      | Inr (ConversationsB b) \<Rightarrow> Inr b
      | Inr _ \<Rightarrow> Inr \<lparr>conversations_field = None, unread_count_field = None\<rparr>)"

definition apply_load :: "net_error + api_body \<Rightarrow> ui \<Rightarrow> ui" where
  "apply_load r u =
     (let p = loadConversations (as_conversations r) (panel u)
      in u\<lparr>panel := p,
           conversation :=
             (case find (\<lambda>c. conversation_id c = conversation_id (conversation u)) (conversations p) of
                Some c \<Rightarrow> c
              | None \<Rightarrow> conversation u)\<rparr>)"

text \<open>
  A suspended handler goes on when its request settles. In \<^verbatim>\<open>handleSummarize\<close> both
  awaits are inside the \<^verbatim>\<open>try\<close>, the \<^verbatim>\<open>catch\<close> only logs, and \<^verbatim>\<open>setLoading(false)\<close>
  follows on every path. \<^verbatim>\<open>handleMarkAllRead\<close> has no \<^verbatim>\<open>try\<close>: a rejection ends it.
\<close>

fun resume :: "cont \<Rightarrow> net_error + api_body \<Rightarrow> ui \<Rightarrow> ui" where
  "resume K_summarize (Inr body) u =
     issue (MarkRead (conversation_id (conversation u))) K_summarize_markRead
       (u\<lparr>card_summary := (case body of SummaryB result \<Rightarrow> result | _ \<Rightarrow> None)\<rparr>)"
| "resume K_summarize (Inl err) u = u\<lparr>card_loading := False\<rparr>"
| "resume K_summarize_markRead (Inr body) u = (onRead u)\<lparr>card_loading := False\<rparr>"
| "resume K_summarize_markRead (Inl err) u = u\<lparr>card_loading := False\<rparr>"
| "resume K_dropped r u = u"
| "resume K_markAllRead (Inr body) u = loadConversations_call K_load u"
| "resume K_markAllRead (Inl err) u = u"
| "resume K_summarizeAll (Inr body) u = loadConversations_call K_load_summarizeAll u"
| "resume K_summarizeAll (Inl err) u = u\<lparr>panel := (panel u)\<lparr>summarizingAll := False\<rparr>\<rparr>"
| "resume K_load r u = apply_load r u"
| "resume K_load_summarizeAll r u =
     (let u' = apply_load r u in u'\<lparr>panel := (panel u')\<lparr>summarizingAll := False\<rparr>\<rparr>)"

text \<open>The \<open>i\<close>-th request in flight settles with \<open>r\<close>.\<close>

definition settle :: "nat \<Rightarrow> net_error + api_body \<Rightarrow> ui \<Rightarrow> ui" where
  "settle i r u =
     (if i < length (inflight u)
      then resume (snd (inflight u ! i)) r
             (u\<lparr>inflight := take i (inflight u) @ drop (Suc i) (inflight u),
                trace := trace u @ [Settled (fst (inflight u ! i))]\<rparr>)
      else u)"

datatype ui_event =
    CardClick | MarkAllReadClick | SummarizeAllClick | PollTimer | Settle nat "net_error + api_body"

fun ui_step :: "ui_event \<Rightarrow> ui \<Rightarrow> ui" where
  "ui_step CardClick u = handleClick u"
| "ui_step MarkAllReadClick u = click_markAllRead u"
| "ui_step SummarizeAllClick u = click_summarizeAll u"
| "ui_step PollTimer u = loadConversations_call K_load u"
| "ui_step (Settle i r) u = settle i r u"

definition ui_run :: "ui_event list \<Rightarrow> ui \<Rightarrow> ui" where
  "ui_run evs u = fold ui_step evs u"

text \<open>The requests of one kind that have been issued and have not settled.\<close>

definition outstanding :: "api_call \<Rightarrow> ui \<Rightarrow> nat" where
  "outstanding call u = length (filter (\<lambda>(c, k). c = call) (inflight u))"

text \<open>
  What the card renders: the preview when \<^verbatim>\<open>!summary && !loading\<close>, the spinner when
  \<^verbatim>\<open>loading\<close>, the summary block when \<^verbatim>\<open>summary\<close>, with the details when \<^verbatim>\<open>expanded\<close>.
\<close>

datatype card_view = CollapsedUnsummarized | LoadingView | CollapsedSummarized | ExpandedSummarized

definition card_view :: "ui \<Rightarrow> card_view" where
  "card_view u =
     (if card_summary u = None \<and> \<not> card_loading u then CollapsedUnsummarized
      else if card_summary u = None then LoadingView
      else if card_expanded u then ExpandedSummarized
      else CollapsedSummarized)"

section \<open>The host process: window handles and commands\<close>

text \<open>
  \<^verbatim>\<open>main.ts\<close> keeps two module variables, \<^verbatim>\<open>petWindow\<close> and \<^verbatim>\<open>summaryWindow\<close>, each a
  window or \<^verbatim>\<open>null\<close>. A handle is the identity of the window object. The native
  windows that exist are kept apart from the two variables, in \<open>live\<close>, so that the
  windows on screen can be compared with what the variables say. \<^verbatim>\<open>close()\<close> asks a
  window to close; the window is gone, and its \<^verbatim>\<open>'closed'\<close> listener runs, in a later
  turn of the event loop. The windows that have been asked and are not gone yet are in
  \<open>closing\<close>.
\<close>

datatype window_kind = Pet | Panel

record BrowserWindow =
  wid :: nat
  kind :: window_kind
  win_x :: int
  win_y :: int
  win_width :: int
  win_height :: int
  hasShadow :: bool

record host =
  petWindow :: "nat option"
  summaryWindow :: "nat option"
  live :: "BrowserWindow list"
  closing :: "nat list"
  next_wid :: nat
  focused :: "nat option"
  screenW :: int
  screenH :: int

definition PET_WIDTH :: int where "PET_WIDTH = 220"
definition PET_HEIGHT :: int where "PET_HEIGHT = 380"
definition SUMMARY_WIDTH :: int where "SUMMARY_WIDTH = 420"
definition SUMMARY_HEIGHT :: int where "SUMMARY_HEIGHT = 620"

text \<open>\<^verbatim>\<open>new BrowserWindow({...})\<close>: a window that did not exist before, with a new identity.\<close>

definition new_BrowserWindow ::
  "window_kind \<Rightarrow> int \<Rightarrow> int \<Rightarrow> int \<Rightarrow> int \<Rightarrow> bool \<Rightarrow> host \<Rightarrow> nat \<times> host" where
  "new_BrowserWindow k x y w h shadow st =
     (next_wid st,
      st\<lparr>live := live st @
            [\<lparr>wid = next_wid st, kind = k, win_x = x, win_y = y, win_width = w,
              win_height = h, hasShadow = shadow\<rparr>],
         next_wid := Suc (next_wid st)\<rparr>)"

text \<open>\<^verbatim>\<open>win.close()\<close>: the request is recorded and the call returns.\<close>

definition BrowserWindow_close :: "nat \<Rightarrow> host \<Rightarrow> host" where
  "BrowserWindow_close w st = st\<lparr>closing := closing st @ [w]\<rparr>"

text \<open>
  The \<^verbatim>\<open>'closed'\<close> listener that each \<^verbatim>\<open>create\<close> function puts on its window. It
  assigns \<^verbatim>\<open>null\<close> to the variable of its kind and does not look at which window the
  variable holds.
\<close>

definition on_closed :: "window_kind \<Rightarrow> host \<Rightarrow> host" where
  "on_closed k st = (case k of Pet \<Rightarrow> st\<lparr>petWindow := None\<rparr> | Panel \<Rightarrow> st\<lparr>summaryWindow := None\<rparr>)"

text \<open>
  A window is gone, after a \<^verbatim>\<open>close()\<close> or closed from outside the program: it is no
  longer live and its \<^verbatim>\<open>'closed'\<close> listener runs.
\<close>

definition window_closed :: "nat \<Rightarrow> host \<Rightarrow> host" where
  "window_closed w st =
     (case find (\<lambda>b. wid b = w) (live st) of
        None \<Rightarrow> st
      | Some b \<Rightarrow>
          on_closed (kind b)
            (st\<lparr>live := filter (\<lambda>b. wid b \<noteq> w) (live st),
                closing := filter (\<lambda>c. c \<noteq> w) (closing st),
                focused := (if focused st = Some w then None else focused st)\<rparr>))"

definition createPetWindow :: "host \<Rightarrow> host" where
  "createPetWindow st =
     (let (w, st') = new_BrowserWindow Pet (screenW st - PET_WIDTH - 40)
                       (screenH st - PET_HEIGHT - 40) PET_WIDTH PET_HEIGHT False st
      in st'\<lparr>petWindow := Some w\<rparr>)"

definition createSummaryWindow :: "host \<Rightarrow> host" where
  "createSummaryWindow st =
     (case summaryWindow st of
        Some w \<Rightarrow> st\<lparr>focused := Some w\<rparr>
      | None \<Rightarrow>
          (let (w, st') = new_BrowserWindow Panel (screenW st - SUMMARY_WIDTH - PET_WIDTH - 60)
                            (screenH st - SUMMARY_HEIGHT - 40) SUMMARY_WIDTH SUMMARY_HEIGHT True st
           in st'\<lparr>summaryWindow := Some w\<rparr>))"

text \<open>\<^verbatim>\<open>closeSummaryWindow\<close>: \<^verbatim>\<open>summaryWindow.close()\<close>, then \<^verbatim>\<open>summaryWindow = null\<close>.\<close>

definition closeSummaryWindow :: "host \<Rightarrow> host" where
  "closeSummaryWindow st =
     (case summaryWindow st of
        Some w \<Rightarrow> (BrowserWindow_close w st)\<lparr>summaryWindow := None\<rparr>
      | None \<Rightarrow> st)"

text \<open>The three listeners registered with \<^verbatim>\<open>ipcMain.on\<close>; no other channel has one.\<close>

definition toggle_summary :: "host \<Rightarrow> host" where
  "toggle_summary st =
     (if summaryWindow st \<noteq> None then closeSummaryWindow st else createSummaryWindow st)"

definition ipcMain_on :: "string \<Rightarrow> host \<Rightarrow> host" where
  "ipcMain_on channel st =
     (if channel = ''open-summary'' then createSummaryWindow st
      else if channel = ''close-summary'' then closeSummaryWindow st
      else if channel = ''toggle-summary'' then toggle_summary st
      else st)"

text \<open>\<^verbatim>\<open>app.on('activate')\<close>.\<close>

definition activate :: "host \<Rightarrow> host" where
  "activate st = (if petWindow st = None then createPetWindow st else st)"

text \<open>\<^verbatim>\<open>app.whenReady()\<close> on a display whose work area is \<open>W\<close> by \<open>H\<close>.\<close>

definition host_ready :: "int \<Rightarrow> int \<Rightarrow> host" where
  "host_ready W H =
     createPetWindow
       \<lparr>petWindow = None, summaryWindow = None, live = [], closing = [], next_wid = 0,
        focused = None, screenW = W, screenH = H\<rparr>"

text \<open>
  What the host handles, one event per turn of its loop: a message on a channel, the
  activation of the application, and the \<^verbatim>\<open>'closed'\<close> event of a window.
\<close>

datatype host_event = Ipc string | Activate | Closed nat

fun host_step :: "host_event \<Rightarrow> host \<Rightarrow> host" where
  "host_step (Ipc channel) st = ipcMain_on channel st"
| "host_step Activate st = activate st"
| "host_step (Closed w) st = window_closed w st"

definition host_run :: "host_event list \<Rightarrow> host \<Rightarrow> host" where
  "host_run evs st = fold host_step evs st"

text \<open>
  The identities of the live windows of one kind, and of those among them that have not
  been asked to close: the windows of that kind that stay on screen.
\<close>

definition live_of :: "window_kind \<Rightarrow> host \<Rightarrow> nat list" where
  "live_of k st = map wid (filter (\<lambda>b. kind b = k) (live st))"

definition shown_of :: "window_kind \<Rightarrow> host \<Rightarrow> nat list" where
  "shown_of k st = filter (\<lambda>w. w \<notin> set (closing st)) (live_of k st)"

text \<open>
  What holds in every state the host reaches: no two live windows share an identity,
  identities not yet given out are not in use, live or closing, and a window that \<^verbatim>\<open>summaryWindow\<close>
  holds is a live panel that has not been asked to close.
\<close>

definition host_ok :: "host \<Rightarrow> bool" where
  "host_ok st =
     (distinct (map wid (live st)) \<and>
      list_all (\<lambda>b. wid b < next_wid st) (live st) \<and>
      list_all (\<lambda>w. w < next_wid st) (closing st) \<and>
      (case summaryWindow st of None \<Rightarrow> True | Some w \<Rightarrow> w \<in> set (shown_of Panel st)))"

section \<open>Concrete inputs\<close>

text \<open>
  Two conversations without a summary, last active at 100 and at 200, and one that the
  store already holds a summary for. All three are unread.
\<close>

definition conv_A :: Conversation where
  "conv_A = \<lparr>sender = ''+15550001'', conversation_id = ''A'', started_at = 90, last_activity = 100,
     messages = [], read = False, summary = None\<rparr>"

definition conv_B :: Conversation where
  "conv_B = \<lparr>sender = ''+15550002'', conversation_id = ''B'', started_at = 150, last_activity = 200,
     messages = [], read = False, summary = None\<rparr>"

definition conv_S :: Conversation where
  "conv_S = \<lparr>sender = ''+15550003'', conversation_id = ''S'', started_at = 10, last_activity = 50,
     messages = [], read = False,
     summary = Some \<lparr>who = ''Sam'', intent = ''lunch'', requirements = [], urgency = ''low'',
       sentiment = ''friendly'', action_items = [], one_liner = ''Sam asks about lunch''\<rparr>\<rparr>"

section \<open>Helper lemmas\<close>

lemma insert_by_mset: "mset (insert_by cmp a bs) = add_mset a (mset bs)"
  by (induction bs) simp_all

lemma array_sort_mset: "mset (array_sort cmp xs) = mset xs"
  by (induction xs) (simp_all add: array_sort_def insert_by_mset)

lemma insert_by_set: "set (insert_by cmp a bs) = insert a (set bs)"
  by (induction bs) auto

lemma insert_by_sorted_desc:
  "sorted_desc bs \<Longrightarrow> sorted_desc (insert_by by_last_activity a bs)"
proof (induction bs)
  case Nil
  then show ?case by (simp add: sorted_desc_def)
next
  case (Cons b bs)
  then have tl: "sorted_desc bs" and hd: "\<forall>c\<in>set bs. last_activity c \<le> last_activity b"
    by (simp_all add: sorted_desc_def)
  show ?case
  proof (cases "by_last_activity a b \<le> 0")
    case True
    then have "last_activity b \<le> last_activity a" by (simp add: by_last_activity_def)
    with hd Cons.prems True show ?thesis
      by (auto simp: sorted_desc_def)
  next
    case False
    then have "last_activity a \<le> last_activity b" by (simp add: by_last_activity_def)
    with hd Cons.IH [OF tl] False show ?thesis
      by (auto simp: sorted_desc_def insert_by_set)
  qed
qed

lemma array_sort_sorted_desc: "sorted_desc (array_sort by_last_activity xs)"
proof (induction xs)
  case Nil
  show ?case by (simp add: array_sort_def sorted_desc_def)
next
  case (Cons x xs)
  then show ?case
    using insert_by_sorted_desc [of "array_sort by_last_activity xs" x]
    by (simp add: array_sort_def)
qed

lemma loadConversations_sorted_desc:
  "sorted_desc (conversations s) \<Longrightarrow> sorted_desc (conversations (loadConversations r s))"
  by (cases r) (simp_all add: loadConversations_def array_sort_sorted_desc)

lemma reconciles_sorted_desc:
  "sorted_desc (conversations s) \<Longrightarrow> sorted_desc (conversations (reconciles rs s))"
  unfolding reconciles_def
  by (induction rs arbitrary: s) (simp_all add: loadConversations_sorted_desc)

lemma loadConversations_unreadCount:
  "unreadCount (loadConversations (Inl err) s) = unreadCount s"
  "unreadCount (loadConversations (Inr data) s) = or_zero (unread_count_field data)"
  by (simp_all add: loadConversations_def)

lemma reconciles_unreadCount:
  "unreadCount (reconciles rs s) = last_reported (unreadCount s) rs"
  unfolding reconciles_def
proof (induction rs arbitrary: s)
  case Nil
  show ?case by simp
next
  case (Cons r rs)
  show ?case by (cases r) (simp_all add: Cons.IH loadConversations_unreadCount)
qed

lemma last_reported_nonneg:
  "0 \<le> n \<Longrightarrow> counts_nonneg rs \<Longrightarrow> 0 \<le> last_reported n rs"
proof (induction rs arbitrary: n)
  case Nil
  then show ?case by simp
next
  case (Cons r rs)
  then show ?case by (cases r) simp_all
qed

subsection \<open>The badge counter\<close>

lemma badge_polls_unreadCount:
  "pet_unreadCount (badge_polls rs s) = last_count (pet_unreadCount s) rs"
  unfolding badge_polls_def
proof (induction rs arbitrary: s)
  case Nil
  show ?case by simp
next
  case (Cons r rs)
  have step: "pet_unreadCount (pollUnread r s) = last_count (pet_unreadCount s) [r]"
    by (cases r) (simp_all add: pollUnread_def setTimeout_def Let_def)
  show ?case by (cases r) (use step in \<open>simp_all add: Cons.IH\<close>)
qed

lemma last_count_nonneg: "0 \<le> n \<Longrightarrow> polls_nonneg rs \<Longrightarrow> 0 \<le> last_count n rs"
proof (induction rs arbitrary: n)
  case Nil
  then show ?case by simp
next
  case (Cons r rs)
  then show ?case by (cases r) simp_all
qed

subsection \<open>Handlers of the panel and the card\<close>

lemmas ui_defs = mount_card_def handleClick_def handleSummarize_def issue_def onRead_def
  loadConversations_call_def outstanding_def settle_def card_view_def handleMarkAllRead_def
  click_markAllRead_def click_summarizeAll_def handleSummarizeAll_def ui_run_def

text \<open>
  A click on a card without a summary issues one more summarize request in every state,
  the loading state included.
\<close>

lemma click_while_loading_issues_summarize:
  "card_summary u = None \<Longrightarrow>
   outstanding (Summarize (conversation_id (conversation u))) (handleClick u)
     = Suc (outstanding (Summarize (conversation_id (conversation u))) u)"
  by (simp add: ui_defs Let_def)

text \<open>
  The sibling paths. The Summarize All button is disabled while its call is outstanding,
  and both \<^verbatim>\<open>handleMarkAllRead\<close> and \<^verbatim>\<open>handleSummarize\<close> start the reconcile only
  after their mutation has settled.
\<close>

lemma summarizeAll_gated: "summarizingAll (panel u) \<Longrightarrow> click_summarizeAll u = u"
  by (simp add: click_summarizeAll_def)

lemma markAllRead_awaited:
  "trace (settle 0 (Inr Ack) (handleMarkAllRead (mount_card p c)))
     = [Issued MarkAllRead, Settled MarkAllRead, Issued FetchAll]"
  by (simp add: ui_defs)

lemma summarize_awaits_markRead:
  "trace (settle 0 (Inr Ack) (settle 0 (Inr (SummaryB r)) (handleSummarize (mount_card p c))))
     = [Issued (Summarize (conversation_id c)), Settled (Summarize (conversation_id c)),
        Issued (MarkRead (conversation_id c)), Settled (MarkRead (conversation_id c)),
        Issued FetchAll]"
  by (simp add: ui_defs)

text \<open>
  With the bridge of \<^verbatim>\<open>preload.ts\<close> in place the close button sends its command.
\<close>

lemma bridge_present_sends:
  "sent w = [] \<Longrightarrow> electronAPI w = Some preload_api \<Longrightarrow>
   handleClose w = Inr (w\<lparr>sent := [''close-summary'']\<rparr>)"
  by (simp add: handleClose_def call_bridge_def preload_api_def ipcRenderer_send_def)

subsection \<open>The window registry\<close>

lemma live_of_fresh:
  "list_all (\<lambda>b. wid b < n) (live st) \<Longrightarrow> n \<notin> set (live_of k st)"
  by (auto simp: list_all_iff live_of_def)

lemma live_of_below:
  "list_all (\<lambda>b. wid b < n) (live st) \<Longrightarrow> w \<in> set (live_of k st) \<Longrightarrow> w < n"
  by (auto simp: list_all_iff live_of_def)

lemma live_of_distinct: "distinct (map wid (live st)) \<Longrightarrow> distinct (live_of k st)"
  by (simp add: live_of_def distinct_map_filter)

lemma find_wid_Some:
  "find (\<lambda>b. wid b = w) l = Some b \<Longrightarrow> wid b = w \<and> b \<in> set l"
  by (induction l) (auto split: if_splits)

lemma live_of_filter:
  "map wid (filter (\<lambda>b. kind b = k) (filter (\<lambda>b. wid b \<noteq> w) l)) =
   filter (\<lambda>x. x \<noteq> w) (map wid (filter (\<lambda>b. kind b = k) l))"
  by (induction l) simp_all

lemma kinds_disjoint:
  "distinct (map wid l) \<Longrightarrow> b \<in> set l \<Longrightarrow> kind b \<noteq> k \<Longrightarrow>
   wid b \<notin> set (map wid (filter (\<lambda>b. kind b = k) l))"
  by (induction l) (auto simp: image_iff)

lemma filter_absent: "w \<notin> set xs \<Longrightarrow> filter (\<lambda>x. x \<noteq> w) xs = xs"
  by (induction xs) auto

lemma length_filter_one:
  "distinct xs \<Longrightarrow> w \<in> set xs \<Longrightarrow> Suc (length (filter (\<lambda>x. x \<noteq> w) xs)) = length xs"
  by (induction xs) (auto simp: filter_absent)

lemma host_ok_ready: "host_ok (host_ready W H)"
  by (simp add: host_ready_def createPetWindow_def new_BrowserWindow_def host_ok_def)

lemma host_ok_createSummaryWindow:
  assumes "host_ok st"
  shows "host_ok (createSummaryWindow st)"
proof (cases "summaryWindow st")
  case None
  from assms have f: "list_all (\<lambda>b. wid b < next_wid st) (live st)"
    and d: "distinct (map wid (live st))"
    and c: "list_all (\<lambda>w. w < next_wid st) (closing st)"
    by (simp_all add: host_ok_def)
  from c have nc: "next_wid st \<notin> set (closing st)" by (auto simp: list_all_iff)
  from f have nl: "next_wid st \<notin> wid ` set (live st)" by (auto simp: list_all_iff)
  from f have f': "list_all (\<lambda>b. wid b < Suc (next_wid st)) (live st)"
    by (auto simp: list_all_iff)
  from c have c': "list_all (\<lambda>w. w < Suc (next_wid st)) (closing st)"
    by (auto simp: list_all_iff)
  show ?thesis
    using None d nc nl f' c'
    by (simp add: createSummaryWindow_def new_BrowserWindow_def host_ok_def shown_of_def
        live_of_def)
next
  case (Some w)
  with assms show ?thesis
    by (simp add: createSummaryWindow_def host_ok_def shown_of_def live_of_def)
qed

lemma host_ok_createPetWindow:
  assumes "host_ok st"
  shows "host_ok (createPetWindow st)"
proof -
  from assms have f: "list_all (\<lambda>b. wid b < next_wid st) (live st)"
    and d: "distinct (map wid (live st))"
    and c: "list_all (\<lambda>w. w < next_wid st) (closing st)"
    and h: "case summaryWindow st of None \<Rightarrow> True | Some w \<Rightarrow> w \<in> set (shown_of Panel st)"
    by (simp_all add: host_ok_def)
  from f have nl: "next_wid st \<notin> wid ` set (live st)" by (auto simp: list_all_iff)
  from f have f': "list_all (\<lambda>b. wid b < Suc (next_wid st)) (live st)"
    by (auto simp: list_all_iff)
  from c have c': "list_all (\<lambda>w. w < Suc (next_wid st)) (closing st)"
    by (auto simp: list_all_iff)
  show ?thesis
    using d nl f' c' h
    by (cases "summaryWindow st")
       (simp_all add: createPetWindow_def new_BrowserWindow_def host_ok_def shown_of_def
          live_of_def)
qed

lemma host_ok_closeSummaryWindow:
  assumes "host_ok st"
  shows "host_ok (closeSummaryWindow st)"
proof (cases "summaryWindow st")
  case None
  with assms show ?thesis by (simp add: closeSummaryWindow_def)
next
  case (Some w)
  from assms have f: "list_all (\<lambda>b. wid b < next_wid st) (live st)"
    and d: "distinct (map wid (live st))"
    and c: "list_all (\<lambda>w. w < next_wid st) (closing st)"
    by (simp_all add: host_ok_def)
  from assms Some have "w \<in> set (live_of Panel st)" by (simp add: host_ok_def shown_of_def)
  with f have "w < next_wid st" by (rule live_of_below)
  with Some d f c show ?thesis
    by (simp add: closeSummaryWindow_def BrowserWindow_close_def host_ok_def)
qed

lemma host_ok_window_closed:
  assumes "host_ok st"
  shows "host_ok (window_closed w st)"
proof (cases "find (\<lambda>b. wid b = w) (live st)")
  case None
  then show ?thesis using assms by (simp add: window_closed_def)
next
  case (Some b)
  from find_wid_Some [OF Some] have wb: "wid b = w" and bl: "b \<in> set (live st)" by simp_all
  from assms have f: "list_all (\<lambda>b. wid b < next_wid st) (live st)"
    and d: "distinct (map wid (live st))"
    and c: "list_all (\<lambda>w. w < next_wid st) (closing st)"
    and h: "case summaryWindow st of None \<Rightarrow> True | Some v \<Rightarrow> v \<in> set (shown_of Panel st)"
    by (simp_all add: host_ok_def)
  define st' where
    "st' = st\<lparr>live := filter (\<lambda>b. wid b \<noteq> w) (live st),
               closing := filter (\<lambda>c. c \<noteq> w) (closing st),
               focused := (if focused st = Some w then None else focused st)\<rparr>"
  have wc: "window_closed w st = on_closed (kind b) st'"
    using Some by (simp add: window_closed_def st'_def)
  have d': "distinct (map wid (live st'))"
    using d by (simp add: st'_def distinct_map_filter)
  have f': "list_all (\<lambda>b. wid b < next_wid st') (live st')"
    using f by (simp add: st'_def list_all_iff)
  have c': "list_all (\<lambda>w. w < next_wid st') (closing st')"
    using c by (simp add: st'_def list_all_iff)
  have lo: "live_of k st' = filter (\<lambda>x. x \<noteq> w) (live_of k st)" for k
    by (simp add: st'_def live_of_def live_of_filter del: filter_filter)
  have cl: "set (closing st') \<subseteq> set (closing st)" by (auto simp: st'_def)
  have sw: "summaryWindow st' = summaryWindow st" by (simp add: st'_def)
  show ?thesis
  proof (cases "kind b")
    case Panel
    with d' f' c' show ?thesis
      by (simp add: wc on_closed_def host_ok_def)
  next
    case Pet
    have other: "w \<notin> set (live_of Panel st)"
      using kinds_disjoint [OF d bl, of Panel] wb Pet by (simp add: live_of_def)
    have keep: "case summaryWindow st of None \<Rightarrow> True | Some v \<Rightarrow> v \<in> set (shown_of Panel st')"
    proof (cases "summaryWindow st")
      case None
      then show ?thesis by simp
    next
      case (Some v)
      with h have v: "v \<in> set (live_of Panel st)" "v \<notin> set (closing st)"
        by (simp_all add: shown_of_def)
      with other have "v \<noteq> w" by auto
      with v cl Some show ?thesis by (auto simp: shown_of_def lo)
    qed
    have "shown_of Panel (st'\<lparr>petWindow := None\<rparr>) = shown_of Panel st'"
      by (simp add: shown_of_def live_of_def)
    with d' f' c' keep sw show ?thesis
      by (cases "summaryWindow st") (simp_all add: wc Pet on_closed_def host_ok_def)
  qed
qed

lemma host_ok_step: "host_ok st \<Longrightarrow> host_ok (host_step ev st)"
proof (cases ev)
  case (Ipc channel)
  assume "host_ok st"
  then show ?thesis unfolding Ipc
    by (simp add: ipcMain_on_def toggle_summary_def host_ok_createSummaryWindow
        host_ok_closeSummaryWindow del: not_None_eq)
next
  case Activate
  assume "host_ok st"
  then show ?thesis unfolding Activate
    by (simp add: activate_def host_ok_createPetWindow)
next
  case (Closed w)
  assume "host_ok st"
  then show ?thesis unfolding Closed
    by (simp add: host_ok_window_closed)
qed

lemma host_ok_run: "host_ok st \<Longrightarrow> host_ok (host_run evs st)"
  unfolding host_run_def
  by (induction evs arbitrary: st) (simp_all add: host_ok_step)

lemma toggle_twice_handle:
  "(summaryWindow (toggle_summary (toggle_summary st)) = None) = (summaryWindow st = None)"
  by (cases "summaryWindow st")
     (simp_all add: toggle_summary_def createSummaryWindow_def closeSummaryWindow_def
        new_BrowserWindow_def BrowserWindow_close_def)

lemma toggle_twice_shown:
  assumes "host_ok st"
  shows "length (shown_of Panel (toggle_summary (toggle_summary st))) = length (shown_of Panel st)"
proof (cases "summaryWindow st")
  case None
  from assms have f: "list_all (\<lambda>b. wid b < next_wid st) (live st)"
    by (simp add: host_ok_def)
  have nl: "next_wid st \<notin> set (live_of Panel st)" by (rule live_of_fresh [OF f])
  have "shown_of Panel (toggle_summary (toggle_summary st)) =
        filter (\<lambda>w. w \<noteq> next_wid st \<and> w \<notin> set (closing st)) (live_of Panel st)"
    using None
    by (auto simp: toggle_summary_def createSummaryWindow_def closeSummaryWindow_def
        new_BrowserWindow_def BrowserWindow_close_def shown_of_def live_of_def
        intro: filter_cong)
  also have "\<dots> = shown_of Panel st"
    using nl by (auto simp: shown_of_def intro: filter_cong)
  finally show ?thesis by simp
next
  case (Some w)
  from assms have f: "list_all (\<lambda>b. wid b < next_wid st) (live st)"
    and d: "distinct (map wid (live st))"
    and c: "list_all (\<lambda>w. w < next_wid st) (closing st)"
    by (simp_all add: host_ok_def)
  from assms Some have ws: "w \<in> set (shown_of Panel st)" by (simp add: host_ok_def)
  then have wl: "w \<in> set (live_of Panel st)" by (simp add: shown_of_def)
  from live_of_below [OF f wl] have wn: "w \<noteq> next_wid st" by simp
  from c have nc: "next_wid st \<notin> set (closing st)" by (auto simp: list_all_iff)
  have ds: "distinct (shown_of Panel st)"
    using live_of_distinct [OF d, of Panel] by (simp add: shown_of_def)
  have "shown_of Panel (toggle_summary (toggle_summary st)) =
        filter (\<lambda>x. x \<noteq> w) (shown_of Panel st) @ [next_wid st]"
    using Some wn nc
    by (auto simp: toggle_summary_def createSummaryWindow_def closeSummaryWindow_def
        new_BrowserWindow_def BrowserWindow_close_def shown_of_def live_of_def
        intro: filter_cong)
  then show ?thesis using length_filter_one [OF ds ws] by simp
qed

lemmas host_defs = host_ready_def createPetWindow_def new_BrowserWindow_def
      live_of_def shown_of_def ipcMain_on_def toggle_summary_def createSummaryWindow_def
      closeSummaryWindow_def BrowserWindow_close_def window_closed_def on_closed_def
      host_run_def activate_def

text \<open>
  With a handle present the open command creates nothing and brings the window it holds
  to the front; with the handle absent the close command changes nothing.
\<close>

lemma open_with_handle_creates_nothing:
  "summaryWindow st = Some w \<Longrightarrow> createSummaryWindow st = st\<lparr>focused := Some w\<rparr>"
  by (simp add: createSummaryWindow_def)

lemma close_without_handle_is_noop:
  "summaryWindow st = None \<Longrightarrow> closeSummaryWindow st = st"
  by (simp add: closeSummaryWindow_def)

section \<open>The claims\<close>

text \<open>
  C1. While a summarize call for a conversation is outstanding (\<^verbatim>\<open>loading = true\<close>),
  further clicks on that conversation should issue no additional summarize call. The
  click handler tests only \<^verbatim>\<open>summary\<close>: after one click on the unsummarized
  conversation A the card is loading with one summarize request outstanding, and a
  second click before it settles leaves two outstanding.
\<close>

theorem second_click_issues_second_summarize:
  "card_summary (handleClick (mount_card panel_init conv_A)) = None \<and>
   card_loading (handleClick (mount_card panel_init conv_A)) \<and>
   outstanding (Summarize ''A'') (handleClick (mount_card panel_init conv_A)) = 1 \<and>
   outstanding (Summarize ''A'') (handleClick (handleClick (mount_card panel_init conv_A))) = 2"
  by (simp add: ui_defs conv_A_def Let_def)

text \<open>
  C2. A mutation that is followed by an explicitly triggered reconcile should settle
  before the fetch of the reconcile is issued. In the click handler of the card it does
  not: one click on the unread conversation S issues the mark-read request and then, at
  once, the fetch, and both are outstanding together.
\<close>

theorem click_reconciles_before_markRead_settles:
  "trace (handleClick (mount_card panel_init conv_S)) = [Issued (MarkRead ''S''), Issued FetchAll] \<and>
   outstanding (MarkRead ''S'') (handleClick (mount_card panel_init conv_S)) = 1 \<and>
   outstanding FetchAll (handleClick (mount_card panel_init conv_S)) = 1"
  by (simp add: ui_defs conv_S_def Let_def)

text \<open>
  C3. After every reconcile the mirror is sorted by \<^verbatim>\<open>last_activity\<close> in descending
  order, whatever the order of the list the store returned: a reconcile that succeeds
  stores a sorted permutation of that list, and after any sequence of reconciles from
  the mounted panel, failed ones included, the mirror is sorted.
\<close>

theorem mirror_sorted_after_reconcile:
  "sorted_desc (conversations (loadConversations (Inr data) s)) \<and>
   mset (conversations (loadConversations (Inr data) s)) = mset (or_empty (conversations_field data)) \<and>
   sorted_desc (conversations (reconciles rs panel_init))"
proof -
  have "sorted_desc (conversations panel_init)"
    by (simp add: panel_init_def sorted_desc_def)
  then have "sorted_desc (conversations (reconciles rs panel_init))"
    by (rule reconciles_sorted_desc)
  then show ?thesis
    by (simp add: loadConversations_def array_sort_sorted_desc array_sort_mset)
qed

theorem mirror_sorted_after_reconcile_witness:
  "conversations (loadConversations
      (Inr \<lparr>conversations_field = Some [conv_A, conv_B], unread_count_field = Some 2\<rparr>) panel_init)
     = [conv_B, conv_A] \<and>
   sorted_desc [conv_B, conv_A]"
  using mirror_sorted_after_reconcile
    [of "\<lparr>conversations_field = Some [conv_A, conv_B], unread_count_field = Some 2\<rparr>" panel_init "[]"]
  by (simp add: loadConversations_def array_sort_def by_last_activity_def or_empty_def
      conv_A_def conv_B_def)

text \<open>
  C4. \<^verbatim>\<open>unreadCount\<close> is at all times the count that the store reported last, in
  the panel and in the companion: after any sequence of polls it is the count of the
  last poll that was answered (\<open>0\<close>, the initial value, before the first answer),
  read from the count field alone and never from the read flags of the mirror. The
  counts of the store being counts, that is, not negative, it is never negative.
\<close>

theorem unreadCount_is_last_reported:
  "unreadCount (reconciles rs panel_init) = last_reported 0 rs \<and>
   pet_unreadCount (badge_polls ps pet_init) = last_count 0 ps \<and>
   (counts_nonneg rs \<longrightarrow> 0 \<le> unreadCount (reconciles rs panel_init)) \<and>
   (polls_nonneg ps \<longrightarrow> 0 \<le> pet_unreadCount (badge_polls ps pet_init))"
  by (simp add: reconciles_unreadCount badge_polls_unreadCount last_reported_nonneg
      last_count_nonneg panel_init_def pet_init_def)

theorem unreadCount_is_last_reported_witness:
  "counts_nonneg [Inr \<lparr>conversations_field = Some [conv_A, conv_B], unread_count_field = Some 5\<rparr>,
                  Inl Timeout] \<and>
   polls_nonneg [Inr 3, Inl Unreachable] \<and>
   unreadCount (reconciles
      [Inr \<lparr>conversations_field = Some [conv_A, conv_B], unread_count_field = Some 5\<rparr>, Inl Timeout]
      panel_init) = 5 \<and>
   length (filter (\<lambda>c. \<not> read c) (conversations (reconciles
      [Inr \<lparr>conversations_field = Some [conv_A, conv_B], unread_count_field = Some 5\<rparr>, Inl Timeout]
      panel_init))) = 2 \<and>
   pet_unreadCount (badge_polls [Inr 3, Inl Unreachable] pet_init) = 3"
  using unreadCount_is_last_reported
    [of "[Inr \<lparr>conversations_field = Some [conv_A, conv_B], unread_count_field = Some 5\<rparr>, Inl Timeout]"
        "[Inr 3, Inl Unreachable]"]
  by (simp add: or_zero_def reconciles_def loadConversations_def array_sort_def
      by_last_activity_def or_empty_def conv_A_def conv_B_def panel_init_def)

text \<open>
  C5. The toggle command closes the panel when the handle is present and opens it when
  the handle is absent, so two toggles in a row bring the panel back to where it was:
  the handle is absent after them exactly when it was absent before, and in every state
  the host reaches there are as many panel windows that stay on screen (live and not
  asked to close) as before.
\<close>

theorem toggle_twice_restores:
  "ipcMain_on ''toggle-summary'' st
     = (if summaryWindow st \<noteq> None then closeSummaryWindow st else createSummaryWindow st) \<and>
   (summaryWindow (ipcMain_on ''toggle-summary'' (ipcMain_on ''toggle-summary'' st)) = None)
     = (summaryWindow st = None) \<and>
   (host_ok st \<longrightarrow>
      length (shown_of Panel (ipcMain_on ''toggle-summary'' (ipcMain_on ''toggle-summary'' st)))
        = length (shown_of Panel st)) \<and>
   host_ok (host_run evs (host_ready W H))"
proof -
  have t: "ipcMain_on ''toggle-summary'' s = toggle_summary s" for s
    by (simp add: ipcMain_on_def)
  have r: "host_ok (host_run evs (host_ready W H))"
    by (rule host_ok_run [OF host_ok_ready])
  show ?thesis
    by (simp add: t toggle_twice_handle toggle_twice_shown r) (simp add: toggle_summary_def)
qed

theorem toggle_twice_restores_witness:
  "host_ok (host_run [Ipc ''open-summary''] (host_ready 1440 900)) \<and>
   summaryWindow (host_run [Ipc ''open-summary''] (host_ready 1440 900)) = Some 1 \<and>
   shown_of Panel (host_run [Ipc ''open-summary''] (host_ready 1440 900)) = [1] \<and>
   summaryWindow (ipcMain_on ''toggle-summary'' (ipcMain_on ''toggle-summary''
      (host_run [Ipc ''open-summary''] (host_ready 1440 900)))) = Some 2 \<and>
   shown_of Panel (ipcMain_on ''toggle-summary'' (ipcMain_on ''toggle-summary''
      (host_run [Ipc ''open-summary''] (host_ready 1440 900)))) = [2] \<and>
   live_of Panel (ipcMain_on ''toggle-summary'' (ipcMain_on ''toggle-summary''
      (host_run [Ipc ''open-summary''] (host_ready 1440 900)))) = [1, 2] \<and>
   closing (ipcMain_on ''toggle-summary'' (ipcMain_on ''toggle-summary''
      (host_run [Ipc ''open-summary''] (host_ready 1440 900)))) = [1] \<and>
   summaryWindow (ipcMain_on ''toggle-summary'' (ipcMain_on ''toggle-summary''
      (host_ready 1440 900))) = None \<and>
   shown_of Panel (ipcMain_on ''toggle-summary'' (ipcMain_on ''toggle-summary''
      (host_ready 1440 900))) = []"
  using toggle_twice_restores
      [of "host_run [Ipc ''open-summary''] (host_ready 1440 900)" "[Ipc ''open-summary'']" 1440 900]
    toggle_twice_restores [of "host_ready 1440 900" "[]" 1440 900]
  by (simp add: host_defs)

text \<open>
  C6. When the summarize call of a conversation fails, by timeout or otherwise, the
  summary of the card is what it was, the loading flag is cleared, a card that had no
  summary shows the collapsed unsummarized view again, and no request is issued in
  response (no retry).
\<close>

theorem summarize_failure_keeps_summary:
  assumes "i < length (inflight u)" and "inflight u ! i = (Summarize cid, K_summarize)"
  shows "card_summary (settle i (Inl err) u) = card_summary u \<and>
         \<not> card_loading (settle i (Inl err) u) \<and>
         (card_summary u = None \<longrightarrow> card_view (settle i (Inl err) u) = CollapsedUnsummarized) \<and>
         inflight (settle i (Inl err) u) = take i (inflight u) @ drop (Suc i) (inflight u) \<and>
         trace (settle i (Inl err) u) = trace u @ [Settled (Summarize cid)]"
  using assms by (simp add: settle_def card_view_def)

theorem summarize_failure_keeps_summary_witness:
  "0 < length (inflight (handleClick (mount_card panel_init conv_A))) \<and>
   inflight (handleClick (mount_card panel_init conv_A)) ! 0 = (Summarize ''A'', K_summarize) \<and>
   card_view (handleClick (mount_card panel_init conv_A)) = LoadingView \<and>
   card_summary (settle 0 (Inl Timeout) (handleClick (mount_card panel_init conv_A))) = None \<and>
   \<not> card_loading (settle 0 (Inl Timeout) (handleClick (mount_card panel_init conv_A))) \<and>
   card_view (settle 0 (Inl Timeout) (handleClick (mount_card panel_init conv_A))) = CollapsedUnsummarized"
  using summarize_failure_keeps_summary
    [of 0 "handleClick (mount_card panel_init conv_A)" "''A''" Timeout]
  by (simp add: ui_defs conv_A_def Let_def)

text \<open>
  C7. No sequence of commands should leave two live panel windows. The \<^verbatim>\<open>'closed'\<close>
  listener of a panel clears \<^verbatim>\<open>summaryWindow\<close> whichever window the variable holds.
  Three toggles open panel 1, ask it to close and open panel 2; when the
  \<^verbatim>\<open>'closed'\<close> event of panel 1 arrives after that, the handle of panel 2 is lost
  while panel 2 is live, and the next toggle opens panel 3 beside it.
\<close>

theorem late_closed_event_orphans_panel:
  "summaryWindow (host_run
      [Ipc ''toggle-summary'', Ipc ''toggle-summary'', Ipc ''toggle-summary'', Closed 1]
      (host_ready 1440 900)) = None \<and>
   live_of Panel (host_run
      [Ipc ''toggle-summary'', Ipc ''toggle-summary'', Ipc ''toggle-summary'', Closed 1]
      (host_ready 1440 900)) = [2] \<and>
   live_of Panel (host_run
      [Ipc ''toggle-summary'', Ipc ''toggle-summary'', Ipc ''toggle-summary'', Closed 1,
       Ipc ''toggle-summary'']
      (host_ready 1440 900)) = [2, 3] \<and>
   closing (host_run
      [Ipc ''toggle-summary'', Ipc ''toggle-summary'', Ipc ''toggle-summary'', Closed 1,
       Ipc ''toggle-summary'']
      (host_ready 1440 900)) = [] \<and>
   summaryWindow (host_run
      [Ipc ''toggle-summary'', Ipc ''toggle-summary'', Ipc ''toggle-summary'', Closed 1,
       Ipc ''toggle-summary'']
      (host_ready 1440 900)) = Some 3"
  by (simp add: host_defs)

text \<open>
  C8. Where the UI process calls the command channel (the close button of the panel and
  the click on the companion; nothing calls open), an absent bridge makes the call a
  no-op, with nothing sent, and no call site throws, with or without the bridge.
\<close>

theorem bridge_absent_is_noop:
  "(electronAPI w = None \<longrightarrow>
      handleClose w = Inr w \<and>
      pet_handleClick w s = Inr (w, setTimeout BounceOff 600 (s\<lparr>bouncing := True\<rparr>))) \<and>
   handleClose w \<noteq> Inl e \<and> pet_handleClick w s \<noteq> Inl e"
  by (cases "electronAPI w") (simp_all add: handleClose_def pet_handleClick_def call_bridge_def)

theorem bridge_absent_is_noop_witness:
  "electronAPI \<lparr>electronAPI = None, sent = []\<rparr> = None \<and>
   handleClose \<lparr>electronAPI = None, sent = []\<rparr> = Inr \<lparr>electronAPI = None, sent = []\<rparr> \<and>
   call_bridge closeSummary \<lparr>electronAPI = None, sent = []\<rparr> = Inl TypeError \<and>
   (case pet_handleClick \<lparr>electronAPI = None, sent = []\<rparr> pet_init of
      Inl e \<Rightarrow> False | Inr (w, s) \<Rightarrow> sent w = [])"
  using bridge_absent_is_noop [of "\<lparr>electronAPI = None, sent = []\<rparr>" pet_init TypeError]
  by (simp add: handleClose_def pet_handleClick_def call_bridge_def)

text \<open>
  C9, as stated: a poll that observes the same count as the poll before triggers no
  bounce. Two successive polls observe 3; the bounce of the first has ended when the
  second starts another and schedules its end.
\<close>

theorem same_count_bounces_again_counterexample:
  "pet_unreadCount (expire 0 (pollUnread (Inr 3) pet_init)) = 3 \<and>
   mood (expire 0 (pollUnread (Inr 3) pet_init)) = Excited \<and>
   \<not> bouncing (expire 0 (pollUnread (Inr 3) pet_init)) \<and>
   timeouts (expire 0 (pollUnread (Inr 3) pet_init)) = [] \<and>
   pet_unreadCount (pollUnread (Inr 3) (expire 0 (pollUnread (Inr 3) pet_init))) = 3 \<and>
   bouncing (pollUnread (Inr 3) (expire 0 (pollUnread (Inr 3) pet_init))) \<and>
   timeouts (pollUnread (Inr 3) (expire 0 (pollUnread (Inr 3) pet_init))) = [(2000, BounceOff)]"
  by (simp add: pollUnread_def pet_init_def expire_def setTimeout_def run_cb_def Let_def)

text \<open>
  C9, amended. After a badge poll the mood is decided by that poll alone: excited when
  it observed a count above 0, idle when it observed a count of 0 or less or when it
  failed. Every poll that observes a count above 0 starts a bounce and schedules its end
  2000 ms later, whether or not the count has changed; when that timeout expires the
  bounce is over. A poll that observes a count of 0 or less, or fails, starts no bounce.
\<close>

theorem mood_follows_poll:
  "mood (pollUnread (Inr cnt) s) = (if 0 < cnt then Excited else Idle) \<and>
   mood (pollUnread (Inl err) s) = Idle \<and>
   (0 < cnt \<longrightarrow>
      bouncing (pollUnread (Inr cnt) s) \<and>
      timeouts (pollUnread (Inr cnt) s) = timeouts s @ [(2000, BounceOff)] \<and>
      \<not> bouncing (expire (length (timeouts s)) (pollUnread (Inr cnt) s))) \<and>
   (cnt \<le> 0 \<longrightarrow>
      bouncing (pollUnread (Inr cnt) s) = bouncing s \<and>
      timeouts (pollUnread (Inr cnt) s) = timeouts s) \<and>
   bouncing (pollUnread (Inl err) s) = bouncing s \<and>
   timeouts (pollUnread (Inl err) s) = timeouts s"
  by (simp add: pollUnread_def expire_def setTimeout_def run_cb_def Let_def nth_append)

theorem mood_follows_poll_witness:
  "mood (pollUnread (Inr 3) pet_init) = Excited \<and>
   bouncing (pollUnread (Inr 3) pet_init) \<and>
   \<not> bouncing (expire 0 (pollUnread (Inr 3) pet_init)) \<and>
   mood (pollUnread (Inr 0) (pollUnread (Inr 3) pet_init)) = Idle \<and>
   timeouts (pollUnread (Inr 0) pet_init) = [] \<and>
   mood (pollUnread (Inl Timeout) (pollUnread (Inr 3) pet_init)) = Idle"
  using mood_follows_poll [of 3 pet_init Timeout]
    mood_follows_poll [of 0 "pollUnread (Inr 3) pet_init" Timeout]
    mood_follows_poll [of 0 pet_init Timeout]
  by (simp add: pet_init_def)

text \<open>
  C10. The badge is a total function of the counter with a display cap: for every count
  of 0 or less it renders nothing, for every count from 1 to 99 it shows that count,
  and for every count above 99 it shows the literal string 99+.
\<close>

theorem badge_display_cap:
  "(cnt \<le> 0 \<longrightarrow> NotificationBadge cnt = None) \<and>
   (1 \<le> cnt \<and> cnt \<le> 99 \<longrightarrow> NotificationBadge cnt = Some (Number cnt)) \<and>
   (99 < cnt \<longrightarrow> NotificationBadge cnt = Some (Literal ''99+''))"
  by (simp add: NotificationBadge_def)

theorem badge_display_cap_witness:
  "NotificationBadge 0 = None \<and> NotificationBadge 42 = Some (Number 42) \<and>
   NotificationBadge 100 = Some (Literal ''99+'')"
  using badge_display_cap [of 0] badge_display_cap [of 42] badge_display_cap [of 100]
  by simp

end
